theory Spec2Isabelle
  imports Main "HOL-Library.Char_ord" "HOL-Library.List_Lexorder" "HOL-Library.Multiset"
begin

section \<open>Conditions (package conditionsutil)\<close>

text \<open>
  A condition as the API types declare it: \<open>Type\<close>, \<open>Status\<close>, \<open>ObservedGeneration\<close>,
  \<open>LastTransitionTime\<close>, \<open>Reason\<close> and \<open>Message\<close>. The status is the three-valued
  enumeration \<open>True | False | Unknown\<close>. Strings are byte lists; their order
  (\<open>HOL-Library.List_Lexorder\<close> over \<open>HOL-Library.Char_ord\<close>) is the byte-wise
  lexicographic order of Go's \<open><\<close> on strings. A time is an instant on the time line
  (an integer count of ticks); the semantic deep equality the code uses compares two
  times as instants, and every other field structurally, so it is HOL equality on the
  record.
\<close>

datatype ConditionStatus = ConditionTrue | ConditionFalse | ConditionUnknown

type_synonym time = int

record Condition =
  Type :: string
  Status :: ConditionStatus
  ObservedGeneration :: int
  LastTransitionTime :: time
  Reason :: string
  Message :: string

text \<open>
  The search loop at the head of \<open>mergeIDPCondition\<close>: it walks the whole slice and
  remembers the index of every match, so it ends with the index of the last element
  whose \<open>Type\<close> is the one looked for (\<open>None\<close> is the nil pointer).
\<close>

fun findOld :: "string \<Rightarrow> Condition list \<Rightarrow> nat \<Rightarrow> nat option \<Rightarrow> nat option" where
  "findOld ty [] i old = old"
| "findOld ty (x # xs) i old = findOld ty xs (Suc i) (if Type x = ty then Some i else old)"

text \<open>
  \<open>mergeIDPCondition existing new\<close> returns the flag and the updated slice. The write
  \<open>*old = *new\<close> goes through the pointer into the slice, which is an update at the
  index found.
\<close>

definition mergeIDPCondition :: "Condition list \<Rightarrow> Condition \<Rightarrow> bool \<times> Condition list" where
  "mergeIDPCondition existing new =
     (case findOld (Type new) existing 0 None of
        None \<Rightarrow> (True, existing @ [new])
      | Some i \<Rightarrow>
          (let old = existing ! i;
               new' = (if Status old = Status new
                       then new\<lparr>LastTransitionTime := LastTransitionTime old\<rparr>
                       else new)
           in if old \<noteq> new' then (True, existing[i := new']) else (False, existing)))"

text \<open>
  \<open>sort.SliceStable\<close> with its \<open>less\<close> function (here \<open>lt\<close>): a stable insertion
  sort, which takes the elements from first to last and puts each one after every
  element already placed that is not greater than it.
\<close>

fun insertStable :: "('a \<Rightarrow> 'a \<Rightarrow> bool) \<Rightarrow> 'a \<Rightarrow> 'a list \<Rightarrow> 'a list" where
  "insertStable lt x [] = [x]"
| "insertStable lt x (y # ys) =
     (if lt x y then x # y # ys else y # insertStable lt x ys)"

definition SliceStable :: "('a \<Rightarrow> 'a \<Rightarrow> bool) \<Rightarrow> 'a list \<Rightarrow> 'a list" where
  "SliceStable lt xs = fold (insertStable lt) xs []"

text \<open>
  The loop of \<open>MergeIDPConditions\<close>. The \<open>i\<close>-th iteration reads the clock once
  (\<open>v1.Now()\<close>), which returns \<open>clock i\<close>; it stamps the copy of the incoming condition
  with that time and the observed generation, merges it, logs it if the merge changed
  something, and records whether its status is \<open>False\<close>. The log is the list of the
  conditions logged as updated, oldest first.
\<close>

definition stamp :: "time \<Rightarrow> int \<Rightarrow> Condition \<Rightarrow> Condition" where
  "stamp t observedGeneration c =
     c\<lparr>LastTransitionTime := t, ObservedGeneration := observedGeneration\<rparr>"

fun mergeLoop :: "(nat \<Rightarrow> time) \<Rightarrow> nat \<Rightarrow> int \<Rightarrow> Condition list \<Rightarrow>
    Condition list \<Rightarrow> bool \<Rightarrow> Condition list \<Rightarrow> bool \<times> Condition list \<times> Condition list" where
  "mergeLoop clock i og [] existing had lg = (had, existing, lg)"
| "mergeLoop clock i og (c # cs) existing had lg =
     (let cond = stamp (clock i) og c;
          (changed, existing') = mergeIDPCondition existing cond
      in mergeLoop clock (Suc i) og cs existing'
           (had \<or> Status cond = ConditionFalse)
           (if changed then lg @ [cond] else lg))"

definition MergeIDPConditions :: "(nat \<Rightarrow> time) \<Rightarrow> Condition list \<Rightarrow> int \<Rightarrow>
    Condition list \<Rightarrow> bool \<times> Condition list \<times> Condition list" where
  "MergeIDPConditions clock conditions observedGeneration conditionsToUpdate =
     (let (hadErrorCondition, merged, lg) =
            mergeLoop clock 0 observedGeneration conditions conditionsToUpdate False []
      in (hadErrorCondition, SliceStable (\<lambda>a b. Type a < Type b) merged, lg))"

section \<open>The GitHub watcher (package githubupstreamwatcher)\<close>

text \<open>
  Modelled from the spec: the phase of a provider status, \<open>Pending | Ready | Error\<close>, and
  the status \<open>{Phase, Conditions}\<close>; the declarations of the API types are not among the
  sources. Of a \<open>GitHubIdentityProvider\<close> the watcher reads the name, the namespace, the
  generation and the status.
\<close>

datatype Phase = PhasePending | PhaseReady | PhaseError

record ProviderStatus =
  StatusPhase :: Phase
  StatusConditions :: "Condition list"

record GitHubIdentityProvider =
  GitHubName :: string
  GitHubNamespace :: string
  GitHubGeneration :: int
  GitHubStatus :: ProviderStatus

text \<open>\<open>upstreamgithub.ProviderConfig\<close>, of which the watcher sets the name only.\<close>

record GitHubProviderConfig =
  GitHubConfigName :: string

text \<open>
  What \<open>Sync\<close> can return besides nil: the wrapped error of the lister, or the
  synthetic-requeue signal.
\<close>

datatype SyncError = ListFailed string | ErrSyntheticRequeue

text \<open>
  \<open>updateStatus\<close> of the GitHub watcher. It works on a copy of the object, merges the
  conditions into the copy's status, sets the phase from the flag that the merge
  returns, and calls \<open>UpdateStatus\<close> on the API client unless the copy equals the
  object. The result is the copy and the call issued, if any (a failure of the call is
  only logged).
\<close>

definition GitHub_updateStatus :: "(nat \<Rightarrow> time) \<Rightarrow> GitHubIdentityProvider \<Rightarrow>
    Condition list \<Rightarrow> GitHubIdentityProvider \<times> GitHubIdentityProvider option" where
  "GitHub_updateStatus clock upstream conditions =
     (let (hadErrorCondition, conds, lg) =
            MergeIDPConditions clock conditions (GitHubGeneration upstream)
              (StatusConditions (GitHubStatus upstream));
          updated = upstream\<lparr>GitHubStatus :=
            \<lparr>StatusPhase = (if hadErrorCondition then PhaseError else PhaseReady),
             StatusConditions = conds\<rparr>\<rparr>
      in (updated, if upstream = updated then None else Some updated))"

text \<open>
  \<open>validateUpstream\<close> of the GitHub watcher: the list of conditions is empty (every
  check is commented out), and the result is always the address of a config. It returns
  the config pointer (\<open>None\<close> would be nil), the conditions it computed, and what
  \<open>updateStatus\<close> did.
\<close>

definition GitHub_validateUpstream :: "(nat \<Rightarrow> time) \<Rightarrow> GitHubIdentityProvider \<Rightarrow>
    GitHubProviderConfig option \<times> Condition list \<times>
    GitHubIdentityProvider \<times> GitHubIdentityProvider option" where
  "GitHub_validateUpstream clock upstream =
     (let result = \<lparr>GitHubConfigName = GitHubName upstream\<rparr>;
          conditions = [];
          st = GitHub_updateStatus clock upstream conditions
      in (Some result, conditions, st))"

text \<open>
  The state the GitHub watcher acts on: the calls made to \<open>SetGitHubIdentityProviders\<close>
  of the published cache (the argument of each, latest last; the cache holds the latest)
  and the \<open>UpdateStatus\<close> calls made on the API client.
\<close>

record GitHubWorld =
  GitHubSetCalls :: "GitHubProviderConfig list list"
  GitHubStatusWrites :: "GitHubIdentityProvider list"

fun GitHub_syncLoop :: "(nat \<Rightarrow> time) \<Rightarrow> GitHubIdentityProvider list \<Rightarrow> bool \<Rightarrow>
    GitHubProviderConfig list \<Rightarrow> GitHubIdentityProvider list \<Rightarrow>
    bool \<times> GitHubProviderConfig list \<times> GitHubIdentityProvider list" where
  "GitHub_syncLoop clock [] requeue validatedUpstreams writes =
     (requeue, validatedUpstreams, writes)"
| "GitHub_syncLoop clock (upstream # rest) requeue validatedUpstreams writes =
     (case GitHub_validateUpstream clock upstream of
        (valid, conditions, updated, call) \<Rightarrow>
          (let writes' = (case call of None \<Rightarrow> writes | Some u \<Rightarrow> writes @ [u])
           in case valid of
                None \<Rightarrow> GitHub_syncLoop clock rest True validatedUpstreams writes'
              | Some v \<Rightarrow> GitHub_syncLoop clock rest requeue (validatedUpstreams @ [v]) writes'))"

text \<open>
  \<open>Sync\<close> of the GitHub watcher. The lister's answer is an input: \<open>Inl\<close> its error,
  \<open>Inr\<close> the providers listed.
\<close>

definition GitHub_Sync :: "(nat \<Rightarrow> time) \<Rightarrow> string + GitHubIdentityProvider list \<Rightarrow>
    GitHubWorld \<Rightarrow> SyncError option \<times> GitHubWorld" where
  "GitHub_Sync clock listed w =
     (case listed of
        Inl err \<Rightarrow> (Some (ListFailed (''failed to list GitHubIdentityProviders: '' @ err)), w)
      | Inr actualUpstreams \<Rightarrow>
          (case GitHub_syncLoop clock actualUpstreams False [] [] of
             (requeue, validatedUpstreams, writes) \<Rightarrow>
               (if requeue then Some ErrSyntheticRequeue else None,
                w\<lparr>GitHubSetCalls := GitHubSetCalls w @ [validatedUpstreams],
                  GitHubStatusWrites := GitHubStatusWrites w @ writes\<rparr>)))"

section \<open>The OIDC watcher (package oidcupstreamwatcher)\<close>

subsection \<open>Constants\<close>

definition oidcClientSecretType :: string where
  "oidcClientSecretType = ''secrets.pinniped.dev/oidc-client''"

definition clientIDDataKey :: string where
  "clientIDDataKey = ''clientID''"

definition clientSecretDataKey :: string where
  "clientSecretDataKey = ''clientSecret''"

definition typeClientCredentialsSecretValid :: string where
  "typeClientCredentialsSecretValid = ''ClientCredentialsSecretValid''"

definition typeAdditionalAuthorizeParametersValid :: string where
  "typeAdditionalAuthorizeParametersValid = ''AdditionalAuthorizeParametersValid''"

definition typeOIDCDiscoverySucceeded :: string where
  "typeOIDCDiscoverySucceeded = ''OIDCDiscoverySucceeded''"

definition reasonUnreachable :: string where
  "reasonUnreachable = ''Unreachable''"

definition reasonInvalidResponse :: string where
  "reasonInvalidResponse = ''InvalidResponse''"

definition reasonDisallowedParameterName :: string where
  "reasonDisallowedParameterName = ''DisallowedParameterName''"

definition allParamNamesAllowedMsg :: string where
  "allParamNamesAllowedMsg = ''additionalAuthorizeParameters parameter names are allowed''"

text \<open>
  Modelled from the spec: the reason codes of package \<open>upstreamwatchers\<close>
  (\<open>Success\<close>, \<open>NotFound\<close>, \<open>WrongType\<close>, \<open>MissingKeys\<close>, \<open>InvalidTLSConfig\<close>), the text of
  its error \<open>ErrNoCertificates\<close>, and the scope names of package \<open>oidcapi\<close>; these
  constants are declared in files that are not among the sources.
\<close>

definition ReasonSuccess :: string where
  "ReasonSuccess = ''Success''"

definition ReasonNotFound :: string where
  "ReasonNotFound = ''NotFound''"

definition ReasonWrongType :: string where
  "ReasonWrongType = ''WrongType''"

definition ReasonMissingKeys :: string where
  "ReasonMissingKeys = ''MissingKeys''"

definition ReasonInvalidTLSConfig :: string where
  "ReasonInvalidTLSConfig = ''InvalidTLSConfig''"

definition ErrNoCertificates :: string where
  "ErrNoCertificates = ''no certificates found''"

definition ScopeOpenID :: string where
  "ScopeOpenID = ''openid''"

definition ScopeOfflineAccess :: string where
  "ScopeOfflineAccess = ''offline_access''"

definition ScopeEmail :: string where
  "ScopeEmail = ''email''"

definition ScopeProfile :: string where
  "ScopeProfile = ''profile''"

text \<open>
  The global map \<open>disallowedAdditionalAuthorizeParameters\<close>, and the lookup
  \<open>disallowedAdditionalAuthorizeParameters[name]\<close>, which is \<open>false\<close> for a missing key.
\<close>

definition disallowedAdditionalAuthorizeParameters :: "string \<rightharpoonup> bool" where
  "disallowedAdditionalAuthorizeParameters = map_of
     [(''response_type'', True),
      (''scope'', True),
      (''client_id'', True),
      (''state'', True),
      (''nonce'', True),
      (''code_challenge'', True),
      (''code_challenge_method'', True),
      (''redirect_uri'', True),
      (''hd'', True)]"

definition disallowed :: "string \<Rightarrow> bool" where
  "disallowed name =
     (case disallowedAdditionalAuthorizeParameters name of None \<Rightarrow> False | Some b \<Rightarrow> b)"

subsection \<open>Data\<close>

text \<open>
  A condition literal of the watcher: the fields it does not name are zero (generation
  0, the zero time).
\<close>

definition mkCondition :: "string \<Rightarrow> ConditionStatus \<Rightarrow> string \<Rightarrow> string \<Rightarrow> Condition" where
  "mkCondition ty st reason msg =
     \<lparr>Type = ty, Status = st, ObservedGeneration = 0, LastTransitionTime = 0,
      Reason = reason, Message = msg\<rparr>"

record Secret =
  SecretType :: string
  SecretData :: "string \<rightharpoonup> string"

text \<open>
  A parsed URL (\<open>url.URL\<close>): of its fields the watcher reads the scheme and the
  fragment, and it calls \<open>Query()\<close>, whose result (the values parsed from the raw query,
  one entry per key) is the field \<open>QueryValues\<close>.
\<close>

record URL =
  Scheme :: string
  Host :: string
  Path :: string
  QueryValues :: "(string \<times> string list) list"
  Fragment :: string

text \<open>
  A discovered provider (\<open>coreosoidc.Provider\<close>): what \<open>Claims\<close> gives for the
  additional discovery claims (\<open>Inl\<close> its error, \<open>Inr\<close> the revocation endpoint, empty
  when the document has none) and the two URLs of \<open>Endpoint()\<close>.
\<close>

record DiscoveredProvider =
  ProviderClaims :: "string + string"
  AuthURL :: string
  TokenURL :: string

record Parameter =
  ParamName :: string
  ParamValue :: string

text \<open>
  The fields of an \<open>OIDCIdentityProvider\<close> that the watcher reads. \<open>TLS\<close> is \<open>None\<close>
  for a nil \<open>spec.tls\<close> and otherwise holds \<open>CertificateAuthorityData\<close>; the fields of
  \<open>spec.authorizationConfig\<close>, \<open>spec.claims\<close> and \<open>spec.client\<close> are listed flat.
\<close>

record OIDCIdentityProviderSpec =
  Issuer :: string
  TLS :: "string option"
  AdditionalScopes :: "string list"
  AdditionalAuthorizeParameters :: "Parameter list"
  AllowPasswordGrant :: bool
  ClaimsUsername :: string
  ClaimsGroups :: string
  ClaimsAdditionalClaimMappings :: "string \<rightharpoonup> string"
  ClientSecretName :: string

record OIDCIdentityProvider =
  Name :: string
  Namespace :: string
  UID :: string
  Generation :: int
  Spec :: OIDCIdentityProviderSpec

text \<open>
  \<open>upstreamoidc.ProviderConfig\<close>, with the fields of its \<open>oauth2.Config\<close> listed flat;
  \<open>'c\<close> is the type of HTTP clients.
\<close>

record 'c ProviderConfig =
  ConfigName :: string
  ConfigClientID :: string
  ConfigClientSecret :: string
  ConfigScopes :: "string list"
  ConfigEndpoint :: "string \<times> string"
  UsernameClaim :: string
  GroupsClaim :: string
  ConfigAllowPasswordGrant :: bool
  AdditionalAuthcodeParams :: "string \<rightharpoonup> string"
  AdditionalClaimMappings :: "string \<rightharpoonup> string"
  ResourceUID :: string
  RevocationURL :: "URL option"
  Provider :: "DiscoveredProvider option"
  Client :: "'c option"

text \<open>
  What the watcher calls and does not define: the secret lister, the validator cache
  (held by the controller as an interface with \<open>getProvider\<close> and \<open>putProvider\<close>), the
  base64 and PEM decoders, the HTTP client constructor, \<open>url.Parse\<close>, OIDC discovery
  (\<open>coreosoidc.NewProvider\<close>), the \<open>%q\<close> verb of \<open>fmt\<close> and \<open>TruncateMostLongErr\<close>.
  \<open>'w\<close> is the state of the world these calls read (informer cache, validator cache,
  network); storing a provider and running a discovery return the next state. An error
  is its text.
\<close>

record ('c, 'w) Env =
  secretsGet :: "'w \<Rightarrow> string \<Rightarrow> string \<Rightarrow> string + Secret"
  getProvider :: "'w \<Rightarrow> OIDCIdentityProviderSpec \<Rightarrow> (DiscoveredProvider \<times> 'c) option"
  putProvider :: "'w \<Rightarrow> OIDCIdentityProviderSpec \<Rightarrow> DiscoveredProvider \<Rightarrow> 'c \<Rightarrow> 'w"
  base64Decode :: "string \<Rightarrow> string + string"
  appendCertsFromPEM :: "string \<Rightarrow> bool"
  phttpDefault :: "string option \<Rightarrow> 'c"
  withTimeoutMinute :: "'c \<Rightarrow> 'c"
  urlParse :: "string \<Rightarrow> string + URL"
  NewProvider :: "'w \<Rightarrow> 'c \<Rightarrow> string \<Rightarrow> (string + DiscoveredProvider) \<times> 'w"
  fmtQ :: "string \<Rightarrow> string"
  TruncateMostLongErr :: "string \<Rightarrow> string"

subsection \<open>Scopes and URLs\<close>

text \<open>
  \<open>computeScopes\<close>. The string set of \<open>sets.NewString\<close> is a set of strings;
  its \<open>List()\<close> gives the members in ascending order.
\<close>

definition computeScopes :: "string list \<Rightarrow> string list" where
  "computeScopes additionalScopes =
     (if length additionalScopes = 0
      then [ScopeOpenID, ScopeOfflineAccess, ScopeEmail, ScopeProfile]
      else sorted_list_of_set (fold insert additionalScopes (insert ScopeOpenID {})))"

text \<open>
  \<open>validateHTTPSURL\<close> returns the parsed URL or the failing condition, never both; a
  nil pointer is \<open>None\<close>.
\<close>

definition validateHTTPSURL :: "('c, 'w) Env \<Rightarrow> string \<Rightarrow> string \<Rightarrow> string \<Rightarrow>
    URL option \<times> Condition option" where
  \<open>validateHTTPSURL env maybeHTTPSURL endpointType reason =
     (case urlParse env maybeHTTPSURL of
        Inl err \<Rightarrow>
          (None, Some (mkCondition typeOIDCDiscoverySucceeded ConditionFalse reason
             (''failed to parse '' @ endpointType @ '' URL: '' @ TruncateMostLongErr env err)))
      | Inr parsedURL \<Rightarrow>
          if Scheme parsedURL \<noteq> ''https''
          then (None, Some (mkCondition typeOIDCDiscoverySucceeded ConditionFalse reason
             (endpointType @ '' URL '' @ [CHR 0x27] @ maybeHTTPSURL @ [CHR 0x27]
                @ '' must have "https" scheme, not '' @ fmtQ env (Scheme parsedURL))))
          else if length (QueryValues parsedURL) \<noteq> 0 \<or> Fragment parsedURL \<noteq> []
          then (None, Some (mkCondition typeOIDCDiscoverySucceeded ConditionFalse reason
             (endpointType @ '' URL '' @ [CHR 0x27] @ maybeHTTPSURL @ [CHR 0x27]
                @ '' cannot contain query or fragment component'')))
          else (Some parsedURL, None))\<close>

subsection \<open>The checks of one provider\<close>

text \<open>
  \<open>getClient\<close>: the client for the provider's CA bundle. A certificate pool is
  represented by the decoded bundle it was filled from.
\<close>

definition defaultClientShortTimeout :: "('c, 'w) Env \<Rightarrow> string option \<Rightarrow> 'c" where
  "defaultClientShortTimeout env rootCAs = withTimeoutMinute env (phttpDefault env rootCAs)"

definition getClient :: "('c, 'w) Env \<Rightarrow> OIDCIdentityProvider \<Rightarrow> string + 'c" where
  "getClient env upstream =
     (case TLS (Spec upstream) of
        None \<Rightarrow> Inr (defaultClientShortTimeout env None)
      | Some certificateAuthorityData \<Rightarrow>
          if certificateAuthorityData = [] then Inr (defaultClientShortTimeout env None)
          else (case base64Decode env certificateAuthorityData of
                  Inl err \<Rightarrow> Inl (''spec.certificateAuthorityData is invalid: '' @ err)
                | Inr bundle \<Rightarrow>
                    if \<not> appendCertsFromPEM env bundle
                    then Inl (''spec.certificateAuthorityData is invalid: '' @ ErrNoCertificates)
                    else Inr (defaultClientShortTimeout env (Some bundle))))"

text \<open>
  \<open>validateSecret\<close> returns its condition and the config, in which it has stored the
  credentials when the secret is valid.
\<close>

definition validateSecret :: "('c, 'w) Env \<Rightarrow> 'w \<Rightarrow> OIDCIdentityProvider \<Rightarrow>
    'c ProviderConfig \<Rightarrow> Condition \<times> 'c ProviderConfig" where
  "validateSecret env w upstream result =
     (let secretName = ClientSecretName (Spec upstream)
      in case secretsGet env w (Namespace upstream) secretName of
           Inl err \<Rightarrow>
             (mkCondition typeClientCredentialsSecretValid ConditionFalse ReasonNotFound err,
              result)
         | Inr secret \<Rightarrow>
             if SecretType secret \<noteq> oidcClientSecretType
             then (mkCondition typeClientCredentialsSecretValid ConditionFalse ReasonWrongType
                     (''referenced Secret '' @ fmtQ env secretName @ '' has wrong type ''
                        @ fmtQ env (SecretType secret) @ '' (should be ''
                        @ fmtQ env oidcClientSecretType @ '')''),
                   result)
             else
               (let clientID = (case SecretData secret clientIDDataKey of
                                  None \<Rightarrow> [] | Some v \<Rightarrow> v);
                    clientSecret = (case SecretData secret clientSecretDataKey of
                                      None \<Rightarrow> [] | Some v \<Rightarrow> v)
                in if length clientID = 0 \<or> length clientSecret = 0
                   then (mkCondition typeClientCredentialsSecretValid ConditionFalse
                           ReasonMissingKeys
                           (''referenced Secret '' @ fmtQ env secretName
                              @ '' is missing required keys ['' @ fmtQ env clientIDDataKey
                              @ '' '' @ fmtQ env clientSecretDataKey @ '']''),
                         result)
                   else (mkCondition typeClientCredentialsSecretValid ConditionTrue
                           ReasonSuccess ''loaded client credentials'',
                         result\<lparr>ConfigClientID := clientID,
                                ConfigClientSecret := clientSecret\<rparr>)))"

text \<open>
  The first half of \<open>validateIssuer\<close>: the provider and the client from the validator
  cache, or from a fresh discovery, which is stored in the cache. \<open>Inl\<close> is the failing
  condition that \<open>validateIssuer\<close> returns at once.
\<close>

definition discover :: "('c, 'w) Env \<Rightarrow> 'w \<Rightarrow> OIDCIdentityProvider \<Rightarrow>
    (Condition + DiscoveredProvider \<times> 'c) \<times> 'w" where
  "discover env w upstream =
     (case getProvider env w (Spec upstream) of
        Some (discoveredProvider, httpClient) \<Rightarrow> (Inr (discoveredProvider, httpClient), w)
      | None \<Rightarrow>
          (case getClient env upstream of
             Inl err \<Rightarrow>
               (Inl (mkCondition typeOIDCDiscoverySucceeded ConditionFalse
                       ReasonInvalidTLSConfig err), w)
           | Inr httpClient \<Rightarrow>
               (case validateHTTPSURL env (Issuer (Spec upstream)) ''issuer'' reasonUnreachable of
                  (_, Some issuerURLCondition) \<Rightarrow> (Inl issuerURLCondition, w)
                | (_, None) \<Rightarrow>
                    (case NewProvider env w httpClient (Issuer (Spec upstream)) of
                       (Inl err, w') \<Rightarrow>
                         (Inl (mkCondition typeOIDCDiscoverySucceeded ConditionFalse
                                 reasonUnreachable
                                 (''failed to perform OIDC discovery against ''
                                    @ fmtQ env (Issuer (Spec upstream)) @ '':'' @ [CHR 0x0A]
                                    @ TruncateMostLongErr env err)), w')
                     | (Inr discoveredProvider, w') \<Rightarrow>
                         (Inr (discoveredProvider, httpClient),
                          putProvider env w' (Spec upstream) discoveredProvider httpClient)))))"

text \<open>
  \<open>validateIssuer\<close> returns its condition, the config (with the revocation URL, the
  endpoint, the provider and the client stored as far as the checks went) and the next
  state of the world.
\<close>

definition validateIssuer :: "('c, 'w) Env \<Rightarrow> 'w \<Rightarrow> OIDCIdentityProvider \<Rightarrow>
    'c ProviderConfig \<Rightarrow> Condition \<times> 'c ProviderConfig \<times> 'w" where
  "validateIssuer env w upstream result =
     (case discover env w upstream of
        (Inl cond, w') \<Rightarrow> (cond, result, w')
      | (Inr (discoveredProvider, httpClient), w') \<Rightarrow>
          (case ProviderClaims discoveredProvider of
             Inl err \<Rightarrow>
               (mkCondition typeOIDCDiscoverySucceeded ConditionFalse reasonInvalidResponse
                  (''failed to unmarshal OIDC discovery response from ''
                     @ fmtQ env (Issuer (Spec upstream)) @ '':'' @ [CHR 0x0A]
                     @ TruncateMostLongErr env err),
                result, w')
           | Inr revocationEndpoint \<Rightarrow>
               (case (if revocationEndpoint \<noteq> []
                      then (case validateHTTPSURL env revocationEndpoint
                                   ''revocation endpoint'' reasonInvalidResponse of
                              (_, Some revocationURLCondition) \<Rightarrow> Inl revocationURLCondition
                            | (revocationURL, None) \<Rightarrow>
                                Inr (result\<lparr>RevocationURL := revocationURL\<rparr>))
                      else Inr result) of
                  Inl cond \<Rightarrow> (cond, result, w')
                | Inr result1 \<Rightarrow>
                    (case validateHTTPSURL env (AuthURL discoveredProvider)
                            ''authorization endpoint'' reasonInvalidResponse of
                       (_, Some authorizeURLCondition) \<Rightarrow> (authorizeURLCondition, result1, w')
                     | (_, None) \<Rightarrow>
                         (case validateHTTPSURL env (TokenURL discoveredProvider)
                                 ''token endpoint'' reasonInvalidResponse of
                            (_, Some tokenURLCondition) \<Rightarrow> (tokenURLCondition, result1, w')
                          | (_, None) \<Rightarrow>
                              (mkCondition typeOIDCDiscoverySucceeded ConditionTrue
                                 ReasonSuccess ''discovered issuer configuration'',
                               result1\<lparr>ConfigEndpoint :=
                                          (AuthURL discoveredProvider, TokenURL discoveredProvider),
                                        Provider := Some discoveredProvider,
                                        Client := Some httpClient\<rparr>,
                               w'))))))"

subsection \<open>One provider, and a pass over all of them\<close>

text \<open>
  The first loop of \<open>validateUpstream\<close>: a parameter whose name the global map
  disallows goes to the rejected names, any other is stored in the map of additional
  parameters (a later entry of the same name overwrites an earlier one).
\<close>

fun splitParameters :: "Parameter list \<Rightarrow> (string \<rightharpoonup> string) \<Rightarrow> string list \<Rightarrow>
    (string \<rightharpoonup> string) \<times> string list" where
  "splitParameters [] additional rejected = (additional, rejected)"
| "splitParameters (p # ps) additional rejected =
     (if disallowed (ParamName p)
      then splitParameters ps additional (rejected @ [ParamName p])
      else splitParameters ps (additional(ParamName p \<mapsto> ParamValue p)) rejected)"

text \<open>\<open>strings.Join\<close>.\<close>

fun Join :: "string list \<Rightarrow> string \<Rightarrow> string" where
  "Join [] sep = []"
| "Join [x] sep = x"
| "Join (x # y # ys) sep = x @ sep @ Join (y # ys) sep"

text \<open>The condition that \<open>validateUpstream\<close> appends for the rejected names.\<close>

definition parametersCondition :: "string list \<Rightarrow> Condition" where
  "parametersCondition rejectedAuthcodeAuthorizeParameters =
     (if length rejectedAuthcodeAuthorizeParameters > 0
      then mkCondition typeAdditionalAuthorizeParametersValid ConditionFalse
             reasonDisallowedParameterName
             (''the following additionalAuthorizeParameters are not allowed: ''
                @ Join rejectedAuthcodeAuthorizeParameters '','')
      else mkCondition typeAdditionalAuthorizeParametersValid ConditionTrue
             ReasonSuccess allParamNamesAllowedMsg)"

text \<open>
  The last loop of \<open>validateUpstream\<close>: \<open>valid\<close> starts true and is cleared at every
  condition whose status is \<open>False\<close>.
\<close>

fun allValid :: "Condition list \<Rightarrow> bool \<Rightarrow> bool" where
  "allValid [] valid = valid"
| "allValid (condition # rest) valid =
     allValid rest (if Status condition = ConditionFalse then False else valid)"

text \<open>
  \<open>validateUpstream\<close> of the OIDC watcher returns the config pointer (\<open>None\<close> is nil),
  the conditions and the next state of the world. It hands the conditions to
  \<open>updateStatus\<close>, which writes the status of the object through the API client;
  nothing of that call comes back to \<open>validateUpstream\<close>, so the conditions in the
  result stand for it.
\<close>

definition OIDC_validateUpstream :: "('c, 'w) Env \<Rightarrow> 'w \<Rightarrow> OIDCIdentityProvider \<Rightarrow>
    'c ProviderConfig option \<times> Condition list \<times> 'w" where
  "OIDC_validateUpstream env w upstream =
     (case splitParameters (AdditionalAuthorizeParameters (Spec upstream)) Map.empty [] of
        (additionalAuthcodeAuthorizeParameters, rejectedAuthcodeAuthorizeParameters) \<Rightarrow>
          (let result =
                 \<lparr>ConfigName = Name upstream,
                  ConfigClientID = [],
                  ConfigClientSecret = [],
                  ConfigScopes = computeScopes (AdditionalScopes (Spec upstream)),
                  ConfigEndpoint = ([], []),
                  UsernameClaim = ClaimsUsername (Spec upstream),
                  GroupsClaim = ClaimsGroups (Spec upstream),
                  ConfigAllowPasswordGrant = AllowPasswordGrant (Spec upstream),
                  AdditionalAuthcodeParams = additionalAuthcodeAuthorizeParameters,
                  AdditionalClaimMappings = ClaimsAdditionalClaimMappings (Spec upstream),
                  ResourceUID = UID upstream,
                  RevocationURL = None,
                  Provider = None,
                  Client = None\<rparr>
           in case validateSecret env w upstream result of
                (secretCondition, result1) \<Rightarrow>
                  (case validateIssuer env w upstream result1 of
                     (issuerCondition, result2, w') \<Rightarrow>
                       (let conditions =
                              [secretCondition, issuerCondition,
                               parametersCondition rejectedAuthcodeAuthorizeParameters]
                        in (if allValid conditions True then Some result2 else None,
                            conditions, w')))))"

text \<open>
  The state the OIDC watcher acts on: the world that the checks read, and the calls made
  to \<open>SetOIDCIdentityProviders\<close> of the published cache (the argument of each, latest
  last; the cache holds the latest).
\<close>

record ('c, 'w) OIDCWorld =
  World :: 'w
  OIDCSetCalls :: "'c ProviderConfig list list"

fun OIDC_syncLoop :: "('c, 'w) Env \<Rightarrow> OIDCIdentityProvider list \<Rightarrow> 'w \<Rightarrow> bool \<Rightarrow>
    'c ProviderConfig list \<Rightarrow> bool \<times> 'c ProviderConfig list \<times> 'w" where
  "OIDC_syncLoop env [] w requeue validatedUpstreams = (requeue, validatedUpstreams, w)"
| "OIDC_syncLoop env (upstream # rest) w requeue validatedUpstreams =
     (case OIDC_validateUpstream env w upstream of
        (None, conditions, w') \<Rightarrow> OIDC_syncLoop env rest w' True validatedUpstreams
      | (Some valid, conditions, w') \<Rightarrow>
          OIDC_syncLoop env rest w' requeue (validatedUpstreams @ [valid]))"

text \<open>
  \<open>Sync\<close> of the OIDC watcher. The lister's answer is an input: \<open>Inl\<close> its error,
  \<open>Inr\<close> the providers listed.
\<close>

definition OIDC_Sync :: "('c, 'w) Env \<Rightarrow> string + OIDCIdentityProvider list \<Rightarrow>
    ('c, 'w) OIDCWorld \<Rightarrow> SyncError option \<times> ('c, 'w) OIDCWorld" where
  "OIDC_Sync env listed st =
     (case listed of
        Inl err \<Rightarrow> (Some (ListFailed (''failed to list OIDCIdentityProviders: '' @ err)), st)
      | Inr actualUpstreams \<Rightarrow>
          (case OIDC_syncLoop env actualUpstreams (World st) False [] of
             (requeue, validatedUpstreams, w') \<Rightarrow>
               (if requeue then Some ErrSyntheticRequeue else None,
                st\<lparr>World := w', OIDCSetCalls := OIDCSetCalls st @ [validatedUpstreams]\<rparr>)))"

text \<open>
  The outcome of validating each listed provider in turn, every one in the world that
  the one before it left: the list of what \<open>validateUpstream\<close> returned, in the order of
  the providers.
\<close>

fun validations :: "('c, 'w) Env \<Rightarrow> 'w \<Rightarrow> OIDCIdentityProvider list \<Rightarrow>
    ('c ProviderConfig option \<times> Condition list) list" where
  "validations env w [] = []"
| "validations env w (upstream # rest) =
     (case OIDC_validateUpstream env w upstream of
        (valid, conditions, w') \<Rightarrow> (valid, conditions) # validations env w' rest)"

section \<open>Notions used in the statements\<close>

text \<open>The conditions of one \<open>Type\<close> in a list, in the order of the list.\<close>

definition ofType :: "string \<Rightarrow> Condition list \<Rightarrow> Condition list" where
  "ofType ty xs = filter (\<lambda>x. Type x = ty) xs"

section \<open>Concrete inputs\<close>

text \<open>Two clocks: the first reads 100, 101, ... and the later one 200, 201, ...\<close>

definition exampleClock :: "nat \<Rightarrow> time" where
  "exampleClock i = 100 + int i"

definition laterClock :: "nat \<Rightarrow> time" where
  "laterClock i = 200 + int i"

text \<open>
  A small world for the OIDC watcher. The secret \<open>creds\<close> holds both credentials; the
  validator cache is always empty; no CA bundle decodes; an HTTP client is
  represented by its root CA bundle; \<open>url.Parse\<close> is given on the few URLs used below;
  every discovery succeeds with the same document and is counted in the world;
  \<open>%q\<close> puts a string without special characters between double quotes; the errors are
  short and are not truncated.
\<close>

definition exampleSecret :: Secret where
  "exampleSecret =
     \<lparr>SecretType = ''secrets.pinniped.dev/oidc-client'',
      SecretData = [''clientID'' \<mapsto> ''id'', ''clientSecret'' \<mapsto> ''secret'']\<rparr>"

definition exampleParse :: "string \<Rightarrow> string + URL" where
  "exampleParse s =
     (if s = ''https://example.com''
      then Inr \<lparr>Scheme = ''https'', Host = ''example.com'', Path = [],
                QueryValues = [], Fragment = []\<rparr>
      else if s = ''http://example.com''
      then Inr \<lparr>Scheme = ''http'', Host = ''example.com'', Path = [],
                QueryValues = [], Fragment = []\<rparr>
      else if s = ''https://example.com?x=1''
      then Inr \<lparr>Scheme = ''https'', Host = ''example.com'', Path = [],
                QueryValues = [(''x'', [''1''])], Fragment = []\<rparr>
      else if s = ''https://example.com/authorize''
      then Inr \<lparr>Scheme = ''https'', Host = ''example.com'', Path = ''/authorize'',
                QueryValues = [], Fragment = []\<rparr>
      else if s = ''https://example.com/token''
      then Inr \<lparr>Scheme = ''https'', Host = ''example.com'', Path = ''/token'',
                QueryValues = [], Fragment = []\<rparr>
      else Inl ''unsupported URL'')"

definition exampleProvider :: DiscoveredProvider where
  "exampleProvider =
     \<lparr>ProviderClaims = Inr [],
      AuthURL = ''https://example.com/authorize'',
      TokenURL = ''https://example.com/token''\<rparr>"

definition exampleEnv :: "(string option, nat) Env" where
  "exampleEnv =
     \<lparr>secretsGet = (\<lambda>w namespace name.
        if name = ''creds'' then Inr exampleSecret else Inl ''secret not found''),
      getProvider = (\<lambda>w spec. None),
      putProvider = (\<lambda>w spec provider client. w),
      base64Decode = (\<lambda>s. Inl ''illegal base64 data at input byte 0''),
      appendCertsFromPEM = (\<lambda>bundle. False),
      phttpDefault = (\<lambda>rootCAs. rootCAs),
      withTimeoutMinute = (\<lambda>client. client),
      urlParse = exampleParse,
      NewProvider = (\<lambda>w client issuer. (Inr exampleProvider, Suc w)),
      fmtQ = (\<lambda>s. [CHR 0x22] @ s @ [CHR 0x22]),
      TruncateMostLongErr = (\<lambda>err. err)\<rparr>"

text \<open>
  A provider of that world whose secret and issuer are in order, with the given
  additional authorize parameters.
\<close>

definition exampleUpstream :: "Parameter list \<Rightarrow> OIDCIdentityProvider" where
  "exampleUpstream params =
     \<lparr>Name = ''idp'', Namespace = ''ns'', UID = ''uid'', Generation = 1,
      Spec = \<lparr>Issuer = ''https://example.com'', TLS = None, AdditionalScopes = [],
              AdditionalAuthorizeParameters = params, AllowPasswordGrant = False,
              ClaimsUsername = ''email'', ClaimsGroups = ''groups'',
              ClaimsAdditionalClaimMappings = Map.empty,
              ClientSecretName = ''creds''\<rparr>\<rparr>"

text \<open>The config that the watcher builds for that provider when it has no parameters.\<close>

definition exampleConfig :: "string option ProviderConfig" where
  "exampleConfig =
     \<lparr>ConfigName = ''idp'', ConfigClientID = ''id'', ConfigClientSecret = ''secret'',
      ConfigScopes = [''openid'', ''offline_access'', ''email'', ''profile''],
      ConfigEndpoint = (''https://example.com/authorize'', ''https://example.com/token''),
      UsernameClaim = ''email'', GroupsClaim = ''groups'', ConfigAllowPasswordGrant = False,
      AdditionalAuthcodeParams = Map.empty, AdditionalClaimMappings = Map.empty,
      ResourceUID = ''uid'', RevocationURL = None,
      Provider = Some exampleProvider, Client = Some None\<rparr>"

text \<open>A GitHub provider that has not been reconciled yet.\<close>

definition exampleGitHub :: "string \<Rightarrow> GitHubIdentityProvider" where
  "exampleGitHub name =
     \<lparr>GitHubName = name, GitHubNamespace = ''ns'', GitHubGeneration = 1,
      GitHubStatus = \<lparr>StatusPhase = PhasePending, StatusConditions = []\<rparr>\<rparr>"

section \<open>The stable sort\<close>

lemma set_insertStable: "set (insertStable lt x ys) = insert x (set ys)"
  by (induction ys) auto

lemma sorted_insertStable:
  fixes f :: "'a \<Rightarrow> 'k::linorder"
  shows "sorted (map f ys) \<Longrightarrow> sorted (map f (insertStable (\<lambda>a b. f a < f b) x ys))"
  by (induction ys) (auto simp: set_insertStable)

lemma sorted_fold_insertStable:
  fixes f :: "'a \<Rightarrow> 'k::linorder"
  shows "sorted (map f acc) \<Longrightarrow>
    sorted (map f (fold (insertStable (\<lambda>a b. f a < f b)) xs acc))"
  by (induction xs arbitrary: acc) (auto simp: sorted_insertStable)

lemma filter_insertStable:
  fixes f :: "'a \<Rightarrow> 'k::linorder"
  shows "sorted (map f ys) \<Longrightarrow>
    filter (\<lambda>y. f y = k) (insertStable (\<lambda>a b. f a < f b) x ys) =
    filter (\<lambda>y. f y = k) ys @ (if f x = k then [x] else [])"
proof (induction ys)
  case Nil
  then show ?case by simp
next
  case (Cons y ys)
  have "f x < f y \<Longrightarrow> filter (\<lambda>y. f y = f x) (y # ys) = []"
    using Cons.prems by (auto simp: filter_empty_conv)
  with Cons show ?case by auto
qed

lemma filter_fold_insertStable:
  fixes f :: "'a \<Rightarrow> 'k::linorder"
  shows "sorted (map f acc) \<Longrightarrow>
    filter (\<lambda>y. f y = k) (fold (insertStable (\<lambda>a b. f a < f b)) xs acc) =
    filter (\<lambda>y. f y = k) acc @ filter (\<lambda>y. f y = k) xs"
  by (induction xs arbitrary: acc) (auto simp: sorted_insertStable filter_insertStable)

lemma mset_insertStable: "mset (insertStable lt x ys) = add_mset x (mset ys)"
  by (induction ys) auto

lemma mset_fold_insertStable: "mset (fold (insertStable lt) xs acc) = mset xs + mset acc"
  by (induction xs arbitrary: acc) (auto simp: mset_insertStable)

lemma insertStable_last:
  fixes f :: "'a \<Rightarrow> 'k::linorder"
  shows "\<forall>y\<in>set ys. f y \<le> f x \<Longrightarrow> insertStable (\<lambda>a b. f a < f b) x ys = ys @ [x]"
  by (induction ys) auto

lemma fold_insertStable_sorted_id:
  fixes f :: "'a \<Rightarrow> 'k::linorder"
  shows "sorted (map f (acc @ xs)) \<Longrightarrow>
    fold (insertStable (\<lambda>a b. f a < f b)) xs acc = acc @ xs"
proof (induction xs arbitrary: acc)
  case Nil
  then show ?case by simp
next
  case (Cons x xs)
  have "\<forall>y\<in>set acc. f y \<le> f x"
    using Cons.prems by (auto simp: sorted_append)
  then have "insertStable (\<lambda>a b. f a < f b) x acc = acc @ [x]"
    by (rule insertStable_last)
  moreover have "sorted (map f ((acc @ [x]) @ xs))"
    using Cons.prems by simp
  ultimately show ?case using Cons.IH [of "acc @ [x]"] by simp
qed

lemma sorted_SliceStable:
  fixes f :: "'a \<Rightarrow> 'k::linorder"
  shows "sorted (map f (SliceStable (\<lambda>a b. f a < f b) xs))"
  by (simp add: SliceStable_def sorted_fold_insertStable)

lemma filter_SliceStable:
  fixes f :: "'a \<Rightarrow> 'k::linorder"
  shows "filter (\<lambda>y. f y = k) (SliceStable (\<lambda>a b. f a < f b) xs) = filter (\<lambda>y. f y = k) xs"
  by (simp add: SliceStable_def filter_fold_insertStable)

lemma mset_SliceStable: "mset (SliceStable lt xs) = mset xs"
  by (simp add: SliceStable_def mset_fold_insertStable)

lemma SliceStable_sorted_id:
  fixes f :: "'a \<Rightarrow> 'k::linorder"
  shows "sorted (map f xs) \<Longrightarrow> SliceStable (\<lambda>a b. f a < f b) xs = xs"
  using fold_insertStable_sorted_id [of f "[]" xs] by (simp add: SliceStable_def)

section \<open>Merging one condition\<close>

lemma stamp_simps [simp]:
  "Type (stamp t og c) = Type c"
  "Status (stamp t og c) = Status c"
  "LastTransitionTime (stamp t og c) = t"
  "(stamp t og c)\<lparr>LastTransitionTime := t'\<rparr> = stamp t' og c"
  by (simp_all add: stamp_def)

lemma findOld_snoc:
  "findOld ty (xs @ [x]) i old =
     (if Type x = ty then Some (i + length xs) else findOld ty xs i old)"
  by (induction xs arbitrary: i old) auto

text \<open>The search finds the last element of the type.\<close>

lemma findOld_last:
  assumes "Type x = ty" "\<forall>b\<in>set bs. Type b \<noteq> ty"
  shows "findOld ty (as @ x # bs) 0 None = Some (length as)"
proof -
  have "findOld ty ((as @ [x]) @ bs) i old = Some (i + length as)" for i old
    using assms
  proof (induction bs arbitrary: i old rule: rev_induct)
    case Nil
    then show ?case by (simp add: findOld_snoc)
  next
    case (snoc b bs)
    have "findOld ty (((as @ [x]) @ bs) @ [b]) i old = findOld ty ((as @ [x]) @ bs) i old"
      using snoc.prems by (simp only: findOld_snoc) simp
    then show ?case using snoc by simp
  qed
  from this [of 0 None] show ?thesis by simp
qed

lemma findOld_cases:
  "(findOld ty xs 0 None = None \<and> (\<forall>x\<in>set xs. Type x \<noteq> ty)) \<or>
   (\<exists>as x bs. xs = as @ x # bs \<and> findOld ty xs 0 None = Some (length as) \<and>
      Type x = ty \<and> (\<forall>b\<in>set bs. Type b \<noteq> ty))"
proof (induction xs rule: rev_induct)
  case Nil
  then show ?case by simp
next
  case (snoc y ys)
  show ?case
  proof (cases "Type y = ty")
    case True
    then have "ys @ [y] = ys @ y # [] \<and> findOld ty (ys @ [y]) 0 None = Some (length ys) \<and>
        Type y = ty \<and> (\<forall>b\<in>set []. Type b \<noteq> ty)"
      by (simp add: findOld_snoc)
    then show ?thesis by blast
  next
    case False
    from snoc.IH show ?thesis
    proof
      assume "findOld ty ys 0 None = None \<and> (\<forall>x\<in>set ys. Type x \<noteq> ty)"
      with False show ?thesis by (simp add: findOld_snoc)
    next
      assume "\<exists>as x bs. ys = as @ x # bs \<and> findOld ty ys 0 None = Some (length as) \<and>
        Type x = ty \<and> (\<forall>b\<in>set bs. Type b \<noteq> ty)"
      then obtain as x bs where h: "ys = as @ x # bs" "findOld ty ys 0 None = Some (length as)"
        "Type x = ty" "\<forall>b\<in>set bs. Type b \<noteq> ty" by blast
      have nb: "\<forall>b\<in>set (bs @ [y]). Type b \<noteq> ty"
        using h(4) False by simp
      have "findOld ty (as @ x # (bs @ [y])) 0 None = Some (length as)"
        using h(3) nb by (rule findOld_last)
      with h(1,3) nb have "ys @ [y] = as @ x # (bs @ [y]) \<and>
          findOld ty (ys @ [y]) 0 None = Some (length as) \<and>
          Type x = ty \<and> (\<forall>b\<in>set (bs @ [y]). Type b \<noteq> ty)"
        by simp
      then show ?thesis by blast
    qed
  qed
qed

lemma findOld_absent:
  "\<forall>x\<in>set xs. Type x \<noteq> ty \<Longrightarrow> findOld ty xs 0 None = None"
  using findOld_cases [of ty xs] by auto

lemma mergeIDPCondition_absent:
  "\<forall>x\<in>set existing. Type x \<noteq> Type new \<Longrightarrow>
     mergeIDPCondition existing new = (True, existing @ [new])"
  by (simp add: mergeIDPCondition_def findOld_absent)

lemma mergeIDPCondition_present:
  assumes "Type old = Type new" "\<forall>b\<in>set bs. Type b \<noteq> Type new"
  shows "mergeIDPCondition (as @ old # bs) new =
     (let new' = (if Status old = Status new
                  then new\<lparr>LastTransitionTime := LastTransitionTime old\<rparr> else new)
      in (old \<noteq> new', as @ new' # bs))"
  using assms by (auto simp: mergeIDPCondition_def findOld_last Let_def)

text \<open>
  C5. One iteration of the merge loop stamps the incoming condition \<open>c\<close> with the time
  \<open>now\<close> and the observed generation and merges it. If no existing condition has its
  \<open>Type\<close>, the stamped condition is appended and the merge reports a change. Otherwise
  let \<open>old\<close> be the existing condition of that \<open>Type\<close> (the last one, should the list
  hold several; no later one has the type). If the status of \<open>old\<close> equals the incoming
  status, the merged condition takes the place of \<open>old\<close> and carries the
  \<open>LastTransitionTime\<close> of \<open>old\<close>, and a change is reported exactly when that differs
  from \<open>old\<close>. If the status differs, the merged condition carries the time stamped at
  the merge, and a change is reported.
\<close>

theorem mergeIDPCondition_transition_time:
  "((\<forall>x\<in>set existing. Type x \<noteq> Type c) \<longrightarrow>
      mergeIDPCondition existing (stamp now og c) = (True, existing @ [stamp now og c])) \<and>
   (Type old = Type c \<and> (\<forall>b\<in>set bs. Type b \<noteq> Type c) \<and> Status old = Status c \<longrightarrow>
      mergeIDPCondition (as @ old # bs) (stamp now og c) =
        (old \<noteq> stamp (LastTransitionTime old) og c,
         as @ stamp (LastTransitionTime old) og c # bs)) \<and>
   (Type old = Type c \<and> (\<forall>b\<in>set bs. Type b \<noteq> Type c) \<and> Status old \<noteq> Status c \<longrightarrow>
      mergeIDPCondition (as @ old # bs) (stamp now og c) =
        (True, as @ stamp now og c # bs))"
proof (intro conjI impI)
  assume "\<forall>x\<in>set existing. Type x \<noteq> Type c"
  then show "mergeIDPCondition existing (stamp now og c) = (True, existing @ [stamp now og c])"
    by (simp add: mergeIDPCondition_absent)
next
  assume a: "Type old = Type c \<and> (\<forall>b\<in>set bs. Type b \<noteq> Type c) \<and> Status old = Status c"
  then have h: "Type old = Type (stamp now og c)" "\<forall>b\<in>set bs. Type b \<noteq> Type (stamp now og c)"
    by simp_all
  show "mergeIDPCondition (as @ old # bs) (stamp now og c) =
        (old \<noteq> stamp (LastTransitionTime old) og c,
         as @ stamp (LastTransitionTime old) og c # bs)"
    using a by (simp add: mergeIDPCondition_present [OF h] Let_def)
next
  assume a: "Type old = Type c \<and> (\<forall>b\<in>set bs. Type b \<noteq> Type c) \<and> Status old \<noteq> Status c"
  then have h: "Type old = Type (stamp now og c)" "\<forall>b\<in>set bs. Type b \<noteq> Type (stamp now og c)"
    by simp_all
  have "old \<noteq> stamp now og c" using a by auto
  then show "mergeIDPCondition (as @ old # bs) (stamp now og c) =
        (True, as @ stamp now og c # bs)"
    using a by (simp add: mergeIDPCondition_present [OF h] Let_def)
qed

text \<open>
  The three cases at work: a first condition of type \<open>A\<close> is appended; merged into a
  condition of the same status from time 5 it keeps time 5 (and replaces the old reason);
  merged into one of another status it carries the new time 100.
\<close>

theorem mergeIDPCondition_transition_time_witness:
  "mergeIDPCondition [] (stamp 100 1 (mkCondition ''A'' ConditionTrue ''r'' ''m'')) =
     (True, [stamp 100 1 (mkCondition ''A'' ConditionTrue ''r'' ''m'')]) \<and>
   mergeIDPCondition [stamp 5 1 (mkCondition ''A'' ConditionTrue ''old'' ''m'')]
       (stamp 100 1 (mkCondition ''A'' ConditionTrue ''r'' ''m'')) =
     (True, [stamp 5 1 (mkCondition ''A'' ConditionTrue ''r'' ''m'')]) \<and>
   mergeIDPCondition [stamp 5 1 (mkCondition ''A'' ConditionFalse ''r'' ''m'')]
       (stamp 100 1 (mkCondition ''A'' ConditionTrue ''r'' ''m'')) =
     (True, [stamp 100 1 (mkCondition ''A'' ConditionTrue ''r'' ''m'')])"
  using mergeIDPCondition_transition_time [of "[]" "mkCondition ''A'' ConditionTrue ''r'' ''m''"
      100 1 "stamp 5 1 (mkCondition ''A'' ConditionTrue ''old'' ''m'')" "[]" "[]"]
    mergeIDPCondition_transition_time [of "[]" "mkCondition ''A'' ConditionTrue ''r'' ''m''"
      100 1 "stamp 5 1 (mkCondition ''A'' ConditionFalse ''r'' ''m'')" "[]" "[]"]
  by (simp add: mkCondition_def stamp_def)

section \<open>Merging a list of conditions\<close>

lemma ofType_merge_other:
  assumes "Type new \<noteq> ty"
  shows "ofType ty (snd (mergeIDPCondition existing new)) = ofType ty existing"
  using findOld_cases [of "Type new" existing]
proof
  assume "findOld (Type new) existing 0 None = None \<and> (\<forall>x\<in>set existing. Type x \<noteq> Type new)"
  then show ?thesis using assms by (simp add: mergeIDPCondition_absent ofType_def)
next
  assume "\<exists>as x bs. existing = as @ x # bs \<and>
      findOld (Type new) existing 0 None = Some (length as) \<and>
      Type x = Type new \<and> (\<forall>b\<in>set bs. Type b \<noteq> Type new)"
  then obtain as x bs where h: "existing = as @ x # bs" "Type x = Type new"
    "\<forall>b\<in>set bs. Type b \<noteq> Type new" by blast
  show ?thesis
    using assms h(2) by (simp add: h(1) mergeIDPCondition_present [OF h(2,3)] ofType_def Let_def)
qed

lemma ofType_merge_same:
  "\<exists>ys t. ofType (Type new) (snd (mergeIDPCondition existing new)) =
      ys @ [new\<lparr>LastTransitionTime := t\<rparr>]"
  using findOld_cases [of "Type new" existing]
proof
  assume "findOld (Type new) existing 0 None = None \<and> (\<forall>x\<in>set existing. Type x \<noteq> Type new)"
  then have "ofType (Type new) (snd (mergeIDPCondition existing new)) =
      [] @ [new\<lparr>LastTransitionTime := LastTransitionTime new\<rparr>]"
    by (simp add: mergeIDPCondition_absent ofType_def filter_empty_conv)
  then show ?thesis by blast
next
  assume "\<exists>as x bs. existing = as @ x # bs \<and>
      findOld (Type new) existing 0 None = Some (length as) \<and>
      Type x = Type new \<and> (\<forall>b\<in>set bs. Type b \<noteq> Type new)"
  then obtain as x bs where h: "existing = as @ x # bs" "Type x = Type new"
    "\<forall>b\<in>set bs. Type b \<noteq> Type new" by blast
  have nb: "filter (\<lambda>x. Type x = Type new) bs = []"
    using h(3) by (simp add: filter_empty_conv)
  have "ofType (Type new) (snd (mergeIDPCondition existing new)) =
      filter (\<lambda>x. Type x = Type new) as @
      [new\<lparr>LastTransitionTime :=
         (if Status x = Status new then LastTransitionTime x else LastTransitionTime new)\<rparr>]"
    by (simp add: h(1) mergeIDPCondition_present [OF h(2,3)] ofType_def Let_def nb)
  then show ?thesis by blast
qed

text \<open>
  A condition whose stamped copy is already the last of its type in the list merges
  without a change, whatever the new time.
\<close>

lemma merge_unchanged:
  assumes "ofType (Type c) R = ys @ [stamp t og c]"
  shows "mergeIDPCondition R (stamp t2 og c) = (False, R)"
  using findOld_cases [of "Type c" R]
proof
  assume "findOld (Type c) R 0 None = None \<and> (\<forall>x\<in>set R. Type x \<noteq> Type c)"
  then have "ofType (Type c) R = []" by (simp add: ofType_def filter_empty_conv)
  with assms show ?thesis by simp
next
  assume "\<exists>as x bs. R = as @ x # bs \<and> findOld (Type c) R 0 None = Some (length as) \<and>
      Type x = Type c \<and> (\<forall>b\<in>set bs. Type b \<noteq> Type c)"
  then obtain as x bs where h: "R = as @ x # bs" "Type x = Type c"
    "\<forall>b\<in>set bs. Type b \<noteq> Type c" by blast
  have nb: "filter (\<lambda>x. Type x = Type c) bs = []"
    using h(3) by (simp add: filter_empty_conv)
  have "ofType (Type c) R = filter (\<lambda>x. Type x = Type c) as @ [x]"
    by (simp add: h(1,2) ofType_def nb)
  with assms have x: "x = stamp t og c" by simp
  have h2: "Type x = Type (stamp t2 og c)" "\<forall>b\<in>set bs. Type b \<noteq> Type (stamp t2 og c)"
    using h(2,3) by simp_all
  show ?thesis
    unfolding h(1) mergeIDPCondition_present [OF h2] by (simp add: x)
qed

lemma mergeLoop_had:
  "fst (mergeLoop clock i og cs existing had lg) =
     (had \<or> (\<exists>c\<in>set cs. Status c = ConditionFalse))"
  by (induction cs arbitrary: i existing had lg) (auto simp: Let_def split: prod.splits)

lemma mergeLoop_other:
  "\<forall>c\<in>set cs. Type c \<noteq> ty \<Longrightarrow>
     ofType ty (fst (snd (mergeLoop clock i og cs existing had lg))) = ofType ty existing"
proof (induction cs arbitrary: i existing had lg)
  case Nil
  then show ?case by simp
next
  case (Cons c cs)
  obtain changed existing' where
    m: "mergeIDPCondition existing (stamp (clock i) og c) = (changed, existing')"
    by (cases "mergeIDPCondition existing (stamp (clock i) og c)")
  have "ofType ty existing' = ofType ty existing"
    using ofType_merge_other [of "stamp (clock i) og c" ty existing] Cons.prems m by simp
  then show ?case using Cons m by (simp add: Let_def)
qed

lemma mergeLoop_last:
  "distinct (map Type cs) \<Longrightarrow> c \<in> set cs \<Longrightarrow>
     \<exists>ys t. ofType (Type c) (fst (snd (mergeLoop clock i og cs existing had lg))) =
        ys @ [stamp t og c]"
proof (induction cs arbitrary: i existing had lg)
  case Nil
  then show ?case by simp
next
  case (Cons d cs)
  obtain changed existing' where
    m: "mergeIDPCondition existing (stamp (clock i) og d) = (changed, existing')"
    by (cases "mergeIDPCondition existing (stamp (clock i) og d)")
  let ?rest = "mergeLoop clock (Suc i) og cs existing'
      (had \<or> Status (stamp (clock i) og d) = ConditionFalse)
      (if changed then lg @ [stamp (clock i) og d] else lg)"
  have step: "mergeLoop clock i og (d # cs) existing had lg = ?rest"
    using m by (simp add: Let_def)
  show ?case
  proof (cases "c = d")
    case True
    have "\<forall>e\<in>set cs. Type e \<noteq> Type d" using Cons.prems(1) by (auto simp: image_iff)
    then have "ofType (Type d) (fst (snd ?rest)) = ofType (Type d) existing'"
      by (rule mergeLoop_other)
    moreover obtain ys t where "ofType (Type d) existing' = ys @ [stamp t og d]"
      using ofType_merge_same [of "stamp (clock i) og d" existing] m by auto
    ultimately show ?thesis using True step by auto
  next
    case False
    then have "c \<in> set cs" using Cons.prems(2) by simp
    moreover have "distinct (map Type cs)" using Cons.prems(1) by simp
    ultimately show ?thesis using Cons.IH step by simp
  qed
qed

lemma mergeLoop_again:
  "\<forall>c\<in>set cs. \<exists>ys t. ofType (Type c) R = ys @ [stamp t og c] \<Longrightarrow>
     mergeLoop clock i og cs R had lg = (had \<or> (\<exists>c\<in>set cs. Status c = ConditionFalse), R, lg)"
proof (induction cs arbitrary: i had lg)
  case Nil
  then show ?case by simp
next
  case (Cons c cs)
  obtain ys t where "ofType (Type c) R = ys @ [stamp t og c]"
    using Cons.prems by auto
  then have "mergeIDPCondition R (stamp (clock i) og c) = (False, R)"
    by (rule merge_unchanged)
  then show ?case using Cons by (auto simp: Let_def)
qed

lemma MergeIDPConditions_proj:
  "MergeIDPConditions clock cs og ex =
     (fst (mergeLoop clock 0 og cs ex False []),
      SliceStable (\<lambda>a b. Type a < Type b) (fst (snd (mergeLoop clock 0 og cs ex False []))),
      snd (snd (mergeLoop clock 0 og cs ex False [])))"
  by (simp add: MergeIDPConditions_def case_prod_beta)

lemma MergeIDPConditions_none:
  "MergeIDPConditions clock [] og existing =
     (False, SliceStable (\<lambda>a b. Type a < Type b) existing, [])"
  by (simp add: MergeIDPConditions_def)

lemma merged_last:
  assumes "distinct (map Type cs)" "c \<in> set cs"
  shows "\<exists>ys t. ofType (Type c) (fst (snd (MergeIDPConditions clock cs og ex))) =
     ys @ [stamp t og c]"
proof -
  have "ofType (Type c) (fst (snd (MergeIDPConditions clock cs og ex))) =
      ofType (Type c) (fst (snd (mergeLoop clock 0 og cs ex False [])))"
    by (simp add: MergeIDPConditions_proj ofType_def filter_SliceStable)
  then show ?thesis using mergeLoop_last [OF assms] by simp
qed

text \<open>
  C1, as the code has it. The flag that \<open>MergeIDPConditions\<close> returns is true exactly
  when one of the incoming conditions (the argument \<open>conditions\<close>) has status \<open>False\<close>;
  the conditions already in \<open>conditionsToUpdate\<close> do not count. The phase that
  \<open>updateStatus\<close> of the GitHub watcher sets is therefore \<open>Error\<close> when an incoming
  condition has status \<open>False\<close>, and \<open>Ready\<close> otherwise.
\<close>

theorem MergeIDPConditions_reports_incoming:
  "(fst (MergeIDPConditions clock conditions og existing) \<longleftrightarrow>
      (\<exists>c\<in>set conditions. Status c = ConditionFalse)) \<and>
   StatusPhase (GitHubStatus (fst (GitHub_updateStatus clock upstream conditions))) =
      (if \<exists>c\<in>set conditions. Status c = ConditionFalse then PhaseError else PhaseReady)"
proof -
  have a: "fst (MergeIDPConditions clock conditions g ex) =
      (\<exists>c\<in>set conditions. Status c = ConditionFalse)" for g ex
    by (simp add: MergeIDPConditions_proj mergeLoop_had)
  have b: "StatusPhase (GitHubStatus (fst (GitHub_updateStatus clock upstream conditions))) =
      (if fst (MergeIDPConditions clock conditions (GitHubGeneration upstream)
                 (StatusConditions (GitHubStatus upstream)))
       then PhaseError else PhaseReady)"
    by (simp add: GitHub_updateStatus_def Let_def case_prod_beta)
  show ?thesis using a b by simp
qed

text \<open>An incoming condition with status \<open>False\<close> sets the flag; one with \<open>True\<close> does not.\<close>

theorem MergeIDPConditions_reports_incoming_witness:
  "fst (MergeIDPConditions exampleClock [mkCondition ''A'' ConditionFalse ''Bad'' ''m''] 1 []) \<and>
   \<not> fst (MergeIDPConditions exampleClock [mkCondition ''A'' ConditionTrue ''Good'' ''m''] 1 [])"
  using MergeIDPConditions_reports_incoming
          [of exampleClock "[mkCondition ''A'' ConditionFalse ''Bad'' ''m'']" 1 "[]"]
        MergeIDPConditions_reports_incoming
          [of exampleClock "[mkCondition ''A'' ConditionTrue ''Good'' ''m'']" 1 "[]"]
  by (simp add: mkCondition_def)

text \<open>
  The flag does not speak for the resulting set: with no incoming condition and an
  existing condition of status \<open>False\<close>, the call returns false and the resulting set
  still holds that condition.
\<close>

theorem MergeIDPConditions_existing_error_counterexample:
  "MergeIDPConditions exampleClock [] 1 [mkCondition ''A'' ConditionFalse ''Bad'' ''m''] =
     (False, [mkCondition ''A'' ConditionFalse ''Bad'' ''m''], []) \<and>
   Status (mkCondition ''A'' ConditionFalse ''Bad'' ''m'') = ConditionFalse"
  by (simp add: MergeIDPConditions_def SliceStable_def mkCondition_def)

text \<open>
  C6. Whatever the order of the incoming conditions and of the existing ones, the set
  that \<open>MergeIDPConditions\<close> leaves in \<open>conditionsToUpdate\<close> is in ascending order of
  \<open>Type\<close>. The sort is stable: it keeps the merged conditions (the same multiset) and,
  for every type, the conditions of that type in the order the merge left them.
\<close>

theorem MergeIDPConditions_sorted:
  "sorted (map Type (fst (snd (MergeIDPConditions clock conditions og existing)))) \<and>
   ofType ty (fst (snd (MergeIDPConditions clock conditions og existing))) =
     ofType ty (fst (snd (mergeLoop clock 0 og conditions existing False []))) \<and>
   mset (fst (snd (MergeIDPConditions clock conditions og existing))) =
     mset (fst (snd (mergeLoop clock 0 og conditions existing False [])))"
  by (simp add: MergeIDPConditions_proj sorted_SliceStable filter_SliceStable mset_SliceStable
      ofType_def)

text \<open>Incoming \<open>B\<close>, \<open>A\<close> merged into an existing \<open>C\<close> come out as \<open>A\<close>, \<open>B\<close>, \<open>C\<close>.\<close>

theorem MergeIDPConditions_sorted_witness:
  "fst (snd (MergeIDPConditions exampleClock
       [mkCondition ''B'' ConditionTrue ''r'' ''m'', mkCondition ''A'' ConditionTrue ''r'' ''m''] 1
       [mkCondition ''C'' ConditionTrue ''r'' ''m''])) =
     [stamp 101 1 (mkCondition ''A'' ConditionTrue ''r'' ''m''),
      stamp 100 1 (mkCondition ''B'' ConditionTrue ''r'' ''m''),
      mkCondition ''C'' ConditionTrue ''r'' ''m''] \<and>
   sorted (map Type (fst (snd (MergeIDPConditions exampleClock
       [mkCondition ''B'' ConditionTrue ''r'' ''m'', mkCondition ''A'' ConditionTrue ''r'' ''m''] 1
       [mkCondition ''C'' ConditionTrue ''r'' ''m'']))))"
proof -
  have "fst (snd (MergeIDPConditions exampleClock
       [mkCondition ''B'' ConditionTrue ''r'' ''m'', mkCondition ''A'' ConditionTrue ''r'' ''m''] 1
       [mkCondition ''C'' ConditionTrue ''r'' ''m''])) =
     [stamp 101 1 (mkCondition ''A'' ConditionTrue ''r'' ''m''),
      stamp 100 1 (mkCondition ''B'' ConditionTrue ''r'' ''m''),
      mkCondition ''C'' ConditionTrue ''r'' ''m'']"
    by (simp add: MergeIDPConditions_def mergeIDPCondition_def SliceStable_def mkCondition_def
        stamp_def exampleClock_def Let_def less_char_def)
  then show ?thesis
    using MergeIDPConditions_sorted [of exampleClock
       "[mkCondition ''B'' ConditionTrue ''r'' ''m'', mkCondition ''A'' ConditionTrue ''r'' ''m'']" 1
       "[mkCondition ''C'' ConditionTrue ''r'' ''m'']"]
    by simp
qed

text \<open>
  C4, as the code has it. Let the incoming conditions have pairwise distinct \<open>Type\<close>s.
  Merging them a second time, with the same observed generation, into the set that the
  first call produced leaves that set as it is, whatever the clock of the second call:
  the call returns the same flag and the same list and logs no update, and each
  per-condition \<open>mergeIDPCondition\<close> on that set returns \<open>changed = false\<close>.
\<close>

theorem MergeIDPConditions_idempotent:
  assumes "distinct (map Type conditions)"
    and "MergeIDPConditions clock1 conditions og existing = (had, merged, lg)"
  shows "MergeIDPConditions clock2 conditions og merged = (had, merged, []) \<and>
    (\<forall>c\<in>set conditions. \<forall>t. mergeIDPCondition merged (stamp t og c) = (False, merged))"
proof -
  have m: "merged = fst (snd (MergeIDPConditions clock1 conditions og existing))"
    and h: "had = fst (MergeIDPConditions clock1 conditions og existing)"
    using assms(2) by simp_all
  have last: "\<forall>c\<in>set conditions. \<exists>ys t. ofType (Type c) merged = ys @ [stamp t og c]"
    unfolding m using merged_last [OF assms(1)] by blast
  have srt: "sorted (map Type merged)"
    unfolding m by (simp add: MergeIDPConditions_proj sorted_SliceStable)
  have hd: "had = (\<exists>c\<in>set conditions. Status c = ConditionFalse)"
    unfolding h by (simp add: MergeIDPConditions_proj mergeLoop_had)
  have "mergeLoop clock2 0 og conditions merged False [] = (had, merged, [])"
    using mergeLoop_again [OF last, of clock2 0 False "[]"] hd by simp
  then have a: "MergeIDPConditions clock2 conditions og merged = (had, merged, [])"
    using srt by (simp add: MergeIDPConditions_def SliceStable_sorted_id)
  have b: "\<forall>c\<in>set conditions. \<forall>t. mergeIDPCondition merged (stamp t og c) = (False, merged)"
    using last merge_unchanged by blast
  show ?thesis using a b by simp
qed

text \<open>
  A first call at times 100, 101 and a second one at times 200, 201: the second returns
  the list of the first and logs nothing.
\<close>

theorem MergeIDPConditions_idempotent_witness:
  "MergeIDPConditions exampleClock
       [mkCondition ''B'' ConditionFalse ''r'' ''m'', mkCondition ''A'' ConditionTrue ''r'' ''m''] 1
       [stamp 5 0 (mkCondition ''A'' ConditionTrue ''r'' ''m'')] =
     (True, [stamp 5 1 (mkCondition ''A'' ConditionTrue ''r'' ''m''),
             stamp 100 1 (mkCondition ''B'' ConditionFalse ''r'' ''m'')],
      [stamp 100 1 (mkCondition ''B'' ConditionFalse ''r'' ''m''),
       stamp 101 1 (mkCondition ''A'' ConditionTrue ''r'' ''m'')]) \<and>
   MergeIDPConditions laterClock
       [mkCondition ''B'' ConditionFalse ''r'' ''m'', mkCondition ''A'' ConditionTrue ''r'' ''m''] 1
       [stamp 5 1 (mkCondition ''A'' ConditionTrue ''r'' ''m''),
        stamp 100 1 (mkCondition ''B'' ConditionFalse ''r'' ''m'')] =
     (True, [stamp 5 1 (mkCondition ''A'' ConditionTrue ''r'' ''m''),
             stamp 100 1 (mkCondition ''B'' ConditionFalse ''r'' ''m'')], [])"
proof -
  have d: "distinct (map Type
      [mkCondition ''B'' ConditionFalse ''r'' ''m'', mkCondition ''A'' ConditionTrue ''r'' ''m''])"
    by (simp add: mkCondition_def)
  have f: "MergeIDPConditions exampleClock
       [mkCondition ''B'' ConditionFalse ''r'' ''m'', mkCondition ''A'' ConditionTrue ''r'' ''m''] 1
       [stamp 5 0 (mkCondition ''A'' ConditionTrue ''r'' ''m'')] =
     (True, [stamp 5 1 (mkCondition ''A'' ConditionTrue ''r'' ''m''),
             stamp 100 1 (mkCondition ''B'' ConditionFalse ''r'' ''m'')],
      [stamp 100 1 (mkCondition ''B'' ConditionFalse ''r'' ''m''),
       stamp 101 1 (mkCondition ''A'' ConditionTrue ''r'' ''m'')])"
    by (simp add: MergeIDPConditions_def mergeIDPCondition_def SliceStable_def mkCondition_def
        stamp_def exampleClock_def Let_def less_char_def)
  show ?thesis
    using MergeIDPConditions_idempotent [OF d f, of laterClock] f by simp
qed

text \<open>
  With two incoming conditions of one type and different statuses the second call is
  not idle: it logs two updates and moves the transition time from 101 to 201.
\<close>

theorem MergeIDPConditions_idempotent_counterexample:
  "MergeIDPConditions exampleClock
       [mkCondition ''A'' ConditionTrue ''r'' ''m'', mkCondition ''A'' ConditionFalse ''r'' ''m''] 1 [] =
     (True, [stamp 101 1 (mkCondition ''A'' ConditionFalse ''r'' ''m'')],
      [stamp 100 1 (mkCondition ''A'' ConditionTrue ''r'' ''m''),
       stamp 101 1 (mkCondition ''A'' ConditionFalse ''r'' ''m'')]) \<and>
   MergeIDPConditions laterClock
       [mkCondition ''A'' ConditionTrue ''r'' ''m'', mkCondition ''A'' ConditionFalse ''r'' ''m''] 1
       [stamp 101 1 (mkCondition ''A'' ConditionFalse ''r'' ''m'')] =
     (True, [stamp 201 1 (mkCondition ''A'' ConditionFalse ''r'' ''m'')],
      [stamp 200 1 (mkCondition ''A'' ConditionTrue ''r'' ''m''),
       stamp 201 1 (mkCondition ''A'' ConditionFalse ''r'' ''m'')]) \<and>
   stamp 201 1 (mkCondition ''A'' ConditionFalse ''r'' ''m'') \<noteq>
     stamp 101 1 (mkCondition ''A'' ConditionFalse ''r'' ''m'')"
  by (simp add: MergeIDPConditions_def mergeIDPCondition_def SliceStable_def mkCondition_def
        stamp_def exampleClock_def laterClock_def Let_def)

section \<open>The OIDC watcher: one pass\<close>

lemma OIDC_syncLoop_validations:
  "OIDC_syncLoop env ups w requeue acc =
     (requeue \<or> (\<exists>v\<in>set (validations env w ups). fst v = None),
      acc @ List.map_filter fst (validations env w ups),
      snd (snd (OIDC_syncLoop env ups w requeue acc)))"
proof (induction ups arbitrary: w requeue acc)
  case Nil
  then show ?case by (simp add: List.map_filter_simps)
next
  case (Cons u ups)
  obtain valid conds w' where v: "OIDC_validateUpstream env w u = (valid, conds, w')"
    by (cases "OIDC_validateUpstream env w u")
  show ?case
  proof (cases valid)
    case None
    then show ?thesis
      using v Cons.IH [of w' True acc] by (simp add: List.map_filter_simps)
  next
    case (Some c)
    then show ?thesis
      using v Cons.IH [of w' requeue "acc @ [c]"] by (simp add: List.map_filter_simps)
  qed
qed



text \<open>The two example providers, validated in any state of the example world.\<close>

lemma example_validate_ok:
  "OIDC_validateUpstream exampleEnv w (exampleUpstream []) =
     (Some exampleConfig,
      [mkCondition ''ClientCredentialsSecretValid'' ConditionTrue ''Success''
         ''loaded client credentials'',
       mkCondition ''OIDCDiscoverySucceeded'' ConditionTrue ''Success''
         ''discovered issuer configuration'',
       mkCondition ''AdditionalAuthorizeParametersValid'' ConditionTrue ''Success''
         ''additionalAuthorizeParameters parameter names are allowed''],
      Suc w)"
  by (simp add: OIDC_validateUpstream_def exampleEnv_def exampleUpstream_def exampleConfig_def
      validateSecret_def validateIssuer_def discover_def getClient_def
      defaultClientShortTimeout_def validateHTTPSURL_def exampleParse_def exampleProvider_def
      exampleSecret_def computeScopes_def parametersCondition_def mkCondition_def
      oidcClientSecretType_def clientIDDataKey_def clientSecretDataKey_def
      typeClientCredentialsSecretValid_def typeAdditionalAuthorizeParametersValid_def
      typeOIDCDiscoverySucceeded_def reasonUnreachable_def reasonInvalidResponse_def
      ReasonSuccess_def allParamNamesAllowedMsg_def ScopeOpenID_def ScopeOfflineAccess_def
      ScopeEmail_def ScopeProfile_def Let_def)

lemma example_validate_rejected:
  "OIDC_validateUpstream exampleEnv w
     (exampleUpstream [\<lparr>ParamName = ''redirect_uri'', ParamValue = ''evil''\<rparr>]) =
     (None,
      [mkCondition ''ClientCredentialsSecretValid'' ConditionTrue ''Success''
         ''loaded client credentials'',
       mkCondition ''OIDCDiscoverySucceeded'' ConditionTrue ''Success''
         ''discovered issuer configuration'',
       mkCondition ''AdditionalAuthorizeParametersValid'' ConditionFalse
         ''DisallowedParameterName''
         ''the following additionalAuthorizeParameters are not allowed: redirect_uri''],
      Suc w)"
  by (simp add: OIDC_validateUpstream_def exampleEnv_def exampleUpstream_def exampleConfig_def
      validateSecret_def validateIssuer_def discover_def getClient_def
      defaultClientShortTimeout_def validateHTTPSURL_def exampleParse_def exampleProvider_def
      exampleSecret_def computeScopes_def parametersCondition_def mkCondition_def
      oidcClientSecretType_def clientIDDataKey_def clientSecretDataKey_def
      typeClientCredentialsSecretValid_def typeAdditionalAuthorizeParametersValid_def
      typeOIDCDiscoverySucceeded_def reasonUnreachable_def reasonInvalidResponse_def
      reasonDisallowedParameterName_def disallowed_def disallowedAdditionalAuthorizeParameters_def
      ReasonSuccess_def allParamNamesAllowedMsg_def ScopeOpenID_def ScopeOfflineAccess_def
      ScopeEmail_def ScopeProfile_def Let_def)

text \<open>
  C2. When the lister succeeds, \<open>Sync\<close> of the OIDC watcher makes one call to
  \<open>SetOIDCIdentityProviders\<close>, whose argument is exactly the configs of the listed
  providers for which \<open>validateUpstream\<close> returned a config (non-nil), in the order of
  the list; this does not depend on any status. When the lister fails, \<open>Sync\<close> returns
  the wrapped error and makes no call: the state, the published cache included, is as
  before.
\<close>

theorem OIDC_Sync_publishes:
  "(listed = Inr ups \<longrightarrow>
      OIDCSetCalls (snd (OIDC_Sync env listed st)) =
        OIDCSetCalls st @ [List.map_filter fst (validations env (World st) ups)]) \<and>
   (listed = Inl err \<longrightarrow>
      OIDC_Sync env listed st =
        (Some (ListFailed (''failed to list OIDCIdentityProviders: '' @ err)), st))"
proof (intro conjI impI)
  assume l: "listed = Inr ups"
  obtain rq vs w' where s: "OIDC_syncLoop env ups (World st) False [] = (rq, vs, w')"
    by (cases "OIDC_syncLoop env ups (World st) False []")
  have "vs = List.map_filter fst (validations env (World st) ups)"
    using OIDC_syncLoop_validations [of env ups "World st" False "[]"] s by simp
  then show "OIDCSetCalls (snd (OIDC_Sync env listed st)) =
        OIDCSetCalls st @ [List.map_filter fst (validations env (World st) ups)]"
    using l s by (simp add: OIDC_Sync_def)
next
  assume "listed = Inl err"
  then show "OIDC_Sync env listed st =
        (Some (ListFailed (''failed to list OIDCIdentityProviders: '' @ err)), st)"
    by (simp add: OIDC_Sync_def)
qed

text \<open>
  A pass over a provider with a rejected parameter and a valid one publishes the valid
  one only; a pass whose listing times out leaves the state alone.
\<close>

theorem OIDC_Sync_publishes_witness:
  "OIDCSetCalls (snd (OIDC_Sync exampleEnv
       (Inr [exampleUpstream [\<lparr>ParamName = ''redirect_uri'', ParamValue = ''evil''\<rparr>],
             exampleUpstream []])
       \<lparr>World = 0, OIDCSetCalls = []\<rparr>)) = [exampleConfig] # [] \<and>
   OIDC_Sync exampleEnv (Inl ''timeout'') \<lparr>World = 0, OIDCSetCalls = []\<rparr> =
     (Some (ListFailed ''failed to list OIDCIdentityProviders: timeout''),
      \<lparr>World = 0, OIDCSetCalls = []\<rparr>)"
  using OIDC_Sync_publishes [of
      "Inr [exampleUpstream [\<lparr>ParamName = ''redirect_uri'', ParamValue = ''evil''\<rparr>],
            exampleUpstream []]"
      "[exampleUpstream [\<lparr>ParamName = ''redirect_uri'', ParamValue = ''evil''\<rparr>],
        exampleUpstream []]"
      exampleEnv "\<lparr>World = 0, OIDCSetCalls = []\<rparr>" "''timeout''"]
    OIDC_Sync_publishes [of "Inl ''timeout''" "[]" exampleEnv
      "\<lparr>World = 0, OIDCSetCalls = []\<rparr>" "''timeout''"]
  by (simp add: example_validate_ok example_validate_rejected List.map_filter_simps)




section \<open>URLs, parameters and scopes\<close>














lemma fold_insert_set: "fold insert xs A = set xs \<union> A"
  by (induction xs arbitrary: A) auto

text \<open>
  C9. \<open>computeScopes\<close> of the empty list is the fixed default
  \<open>[openid, offline_access, email, profile]\<close>. Of a non-empty list it is the list of
  the members of the set that holds \<open>openid\<close> and the configured scopes, each once, in
  ascending order; for \<open>[groups]\<close> that is \<open>[groups, openid]\<close>.
\<close>

theorem computeScopes_default_or_sorted_union:
  "(additionalScopes = [] \<longrightarrow>
      computeScopes additionalScopes = [''openid'', ''offline_access'', ''email'', ''profile'']) \<and>
   (additionalScopes \<noteq> [] \<longrightarrow>
      set (computeScopes additionalScopes) = insert ''openid'' (set additionalScopes) \<and>
      distinct (computeScopes additionalScopes) \<and>
      sorted (computeScopes additionalScopes)) \<and>
   computeScopes [''groups''] = [''groups'', ''openid'']"
proof (intro conjI impI)
  assume "additionalScopes = []"
  then show "computeScopes additionalScopes =
      [''openid'', ''offline_access'', ''email'', ''profile'']"
    by (simp add: computeScopes_def ScopeOpenID_def ScopeOfflineAccess_def ScopeEmail_def
        ScopeProfile_def)
next
  assume ne: "additionalScopes \<noteq> []"
  define S where "S = fold insert additionalScopes (insert ScopeOpenID {})"
  have S: "S = insert ''openid'' (set additionalScopes)"
    by (simp add: S_def fold_insert_set ScopeOpenID_def)
  have fin: "finite S" unfolding S by simp
  have c: "computeScopes additionalScopes = sorted_list_of_set S"
    using ne by (simp add: computeScopes_def S_def)
  show "set (computeScopes additionalScopes) = insert ''openid'' (set additionalScopes)"
    unfolding c using set_sorted_list_of_set [OF fin] S by simp
  show "distinct (computeScopes additionalScopes)"
    unfolding c by (rule distinct_sorted_list_of_set)
  show "sorted (computeScopes additionalScopes)"
    unfolding c by (rule sorted_sorted_list_of_set)
next
  have "computeScopes [''groups''] = sorted_list_of_set (set [''groups'', ''openid''])"
    by (simp add: computeScopes_def ScopeOpenID_def)
  also have "\<dots> = sort (remdups [''groups'', ''openid''])"
    by (rule sorted_list_of_set_sort_remdups)
  also have "\<dots> = [''groups'', ''openid'']"
    by (simp add: less_eq_char_def)
  finally show "computeScopes [''groups''] = [''groups'', ''openid'']" .
qed

text \<open>The default, and a configured list with a repeated scope.\<close>

theorem computeScopes_default_or_sorted_union_witness:
  "computeScopes [] = [''openid'', ''offline_access'', ''email'', ''profile''] \<and>
   set (computeScopes [''groups'', ''email'', ''groups'']) = {''openid'', ''groups'', ''email''} \<and>
   distinct (computeScopes [''groups'', ''email'', ''groups'']) \<and>
   sorted (computeScopes [''groups'', ''email'', ''groups''])"
  using computeScopes_default_or_sorted_union [of "[]"]
    computeScopes_default_or_sorted_union [of "[''groups'', ''email'', ''groups'']"]
  by auto

section \<open>The GitHub watcher: one pass\<close>

lemma GitHub_syncLoop_all:
  "GitHub_syncLoop clock ups requeue acc writes =
     (requeue,
      acc @ map (\<lambda>u. \<lparr>GitHubConfigName = GitHubName u\<rparr>) ups,
      writes @ List.map_filter (\<lambda>u. snd (GitHub_updateStatus clock u [])) ups)"
proof (induction ups arbitrary: acc writes)
  case Nil
  then show ?case by (simp add: List.map_filter_simps)
next
  case (Cons u ups)
  show ?case
    by (cases "snd (GitHub_updateStatus clock u [])")
      (simp_all add: GitHub_validateUpstream_def Cons.IH List.map_filter_simps Let_def
        case_prod_beta)
qed

text \<open>
  C10. For every GitHub provider, \<open>validateUpstream\<close> computes an empty list of
  conditions and returns a config (never nil) that carries the provider's name. The
  status it computes has phase \<open>Ready\<close>: a status update that it sends carries
  \<open>Ready\<close>, and it sends none only when the object is in that state already. When the
  lister succeeds, \<open>Sync\<close> returns nil, never the synthetic-requeue signal, and calls
  \<open>SetGitHubIdentityProviders\<close> once, with the configs of all the listed providers
  in the order of the list.
\<close>

theorem GitHub_always_valid_and_ready:
  "GitHub_validateUpstream clock upstream =
     (Some \<lparr>GitHubConfigName = GitHubName upstream\<rparr>, [],
      GitHub_updateStatus clock upstream []) \<and>
   StatusPhase (GitHubStatus (fst (GitHub_updateStatus clock upstream []))) = PhaseReady \<and>
   (\<forall>u. snd (GitHub_updateStatus clock upstream []) = Some u \<longrightarrow>
      StatusPhase (GitHubStatus u) = PhaseReady) \<and>
   (snd (GitHub_updateStatus clock upstream []) = None \<longrightarrow>
      StatusPhase (GitHubStatus upstream) = PhaseReady) \<and>
   fst (GitHub_Sync clock (Inr actualUpstreams) w) = None \<and>
   GitHubSetCalls (snd (GitHub_Sync clock (Inr actualUpstreams) w)) =
     GitHubSetCalls w @ [map (\<lambda>u. \<lparr>GitHubConfigName = GitHubName u\<rparr>) actualUpstreams] \<and>
   GitHubStatusWrites (snd (GitHub_Sync clock (Inr actualUpstreams) w)) =
     GitHubStatusWrites w @
       List.map_filter (\<lambda>u. snd (GitHub_updateStatus clock u [])) actualUpstreams"
proof (intro conjI)
  show "GitHub_validateUpstream clock upstream =
     (Some \<lparr>GitHubConfigName = GitHubName upstream\<rparr>, [],
      GitHub_updateStatus clock upstream [])"
    by (simp add: GitHub_validateUpstream_def)
  show r: "StatusPhase (GitHubStatus (fst (GitHub_updateStatus clock upstream []))) = PhaseReady"
    by (simp add: GitHub_updateStatus_def MergeIDPConditions_none Let_def)
  show "\<forall>u. snd (GitHub_updateStatus clock upstream []) = Some u \<longrightarrow>
      StatusPhase (GitHubStatus u) = PhaseReady"
    by (auto simp: GitHub_updateStatus_def MergeIDPConditions_none Let_def split: if_splits)
  show "snd (GitHub_updateStatus clock upstream []) = None \<longrightarrow>
      StatusPhase (GitHubStatus upstream) = PhaseReady"
  proof
    assume "snd (GitHub_updateStatus clock upstream []) = None"
    then have "upstream = fst (GitHub_updateStatus clock upstream [])"
      by (simp add: GitHub_updateStatus_def MergeIDPConditions_none Let_def split: if_splits)
    with r show "StatusPhase (GitHubStatus upstream) = PhaseReady" by simp
  qed
  show "fst (GitHub_Sync clock (Inr actualUpstreams) w) = None"
    by (simp add: GitHub_Sync_def GitHub_syncLoop_all)
  show "GitHubSetCalls (snd (GitHub_Sync clock (Inr actualUpstreams) w)) =
     GitHubSetCalls w @ [map (\<lambda>u. \<lparr>GitHubConfigName = GitHubName u\<rparr>) actualUpstreams]"
    by (simp add: GitHub_Sync_def GitHub_syncLoop_all)
  show "GitHubStatusWrites (snd (GitHub_Sync clock (Inr actualUpstreams) w)) =
     GitHubStatusWrites w @
       List.map_filter (\<lambda>u. snd (GitHub_updateStatus clock u [])) actualUpstreams"
    by (simp add: GitHub_Sync_def GitHub_syncLoop_all)
qed

text \<open>
  A first pass over two pending providers publishes both and writes the phase \<open>Ready\<close>
  to both.
\<close>

theorem GitHub_always_valid_and_ready_witness:
  "GitHub_Sync exampleClock (Inr [exampleGitHub ''a'', exampleGitHub ''b''])
       \<lparr>GitHubSetCalls = [], GitHubStatusWrites = []\<rparr> =
     (None,
      \<lparr>GitHubSetCalls = [\<lparr>GitHubConfigName = ''a''\<rparr>, \<lparr>GitHubConfigName = ''b''\<rparr>] # [],
       GitHubStatusWrites =
         [(exampleGitHub ''a'')\<lparr>GitHubStatus :=
             \<lparr>StatusPhase = PhaseReady, StatusConditions = []\<rparr>\<rparr>,
          (exampleGitHub ''b'')\<lparr>GitHubStatus :=
             \<lparr>StatusPhase = PhaseReady, StatusConditions = []\<rparr>\<rparr>]\<rparr>)"
proof -
  have u: "GitHub_updateStatus exampleClock (exampleGitHub n) [] =
      ((exampleGitHub n)\<lparr>GitHubStatus := \<lparr>StatusPhase = PhaseReady, StatusConditions = []\<rparr>\<rparr>,
       Some ((exampleGitHub n)\<lparr>GitHubStatus :=
          \<lparr>StatusPhase = PhaseReady, StatusConditions = []\<rparr>\<rparr>))" for n
    by (simp add: GitHub_updateStatus_def MergeIDPConditions_none SliceStable_def
        exampleGitHub_def Let_def)
  have n: "GitHubName (exampleGitHub n) = n" for n
    by (simp add: exampleGitHub_def)
  have "GitHub_Sync exampleClock (Inr [exampleGitHub ''a'', exampleGitHub ''b''])
       \<lparr>GitHubSetCalls = [], GitHubStatusWrites = []\<rparr> =
     (fst (GitHub_Sync exampleClock (Inr [exampleGitHub ''a'', exampleGitHub ''b''])
       \<lparr>GitHubSetCalls = [], GitHubStatusWrites = []\<rparr>),
      \<lparr>GitHubSetCalls = GitHubSetCalls (snd (GitHub_Sync exampleClock
          (Inr [exampleGitHub ''a'', exampleGitHub ''b''])
          \<lparr>GitHubSetCalls = [], GitHubStatusWrites = []\<rparr>)),
       GitHubStatusWrites = GitHubStatusWrites (snd (GitHub_Sync exampleClock
          (Inr [exampleGitHub ''a'', exampleGitHub ''b''])
          \<lparr>GitHubSetCalls = [], GitHubStatusWrites = []\<rparr>))\<rparr>)"
    by (simp add: prod_eq_iff)
  then show ?thesis
    using GitHub_always_valid_and_ready [of exampleClock "exampleGitHub ''a''"
        "[exampleGitHub ''a'', exampleGitHub ''b'']"
        "\<lparr>GitHubSetCalls = [], GitHubStatusWrites = []\<rparr>"]
    by (simp add: u List.map_filter_simps n)
qed

end
